theory Spec2Isabelle
  imports Complex_Main "HOL-Library.Multiset"
begin

section \<open>Data model of \<open>src/react/components.tsx\<close>\<close>

text \<open>
  The component \<open>EffectsProvider\<close> replays a batch of timed effects against a clock.
  Its two callbacks are embedded as state transformers on a record of everything the
  callbacks read and write: the React state \<open>state\<close>, the ref cell \<open>qState\<close>, the props
  of the latest render, the activity flag of the animation-frame loop and the sequence
  of events handed to the two emitters.

  Times are JavaScript numbers in the source; they are \<open>real\<close> here, so rounding, NaN
  and the infinities are outside the model. The payload of an effect is opaque (a type
  variable).
\<close>

text \<open>
  \<open>InternalEffectShape\<close> (declared in \<open>./types\<close>, built at line 70): the object handed to
  the subscribers, \<open>{ payload, boardProps }\<close>.
\<close>

record ('p, 'b) InternalEffectShape =
  payload :: 'p
  boardProps :: 'b

text \<open>
  Modelled from the spec: the element type of \<open>Queue\<close> (declared in \<open>../types\<close>, which is
  not among the sources). The code reads the fields \<open>type\<close>, \<open>payload\<close>, \<open>t\<close> and \<open>endT\<close>.
\<close>

record 'p Effect =
  type :: string
  payload :: 'p
  t :: real
  endT :: real

type_synonym 'p Queue = "'p Effect list"

text \<open>
  Modelled from the spec: \<open>Data\<close> (declared in \<open>../types\<close>), the batch carried by
  \<open>boardProps.plugins.effects.data\<close>. The code reads \<open>id\<close>, \<open>duration\<close> and \<open>queue\<close>.
\<close>

record 'p Data =
  id' :: string
  duration :: real
  queue :: "'p Queue"

text \<open>
  \<open>BoardProps\<close> of boardgame.io. The component reads \<open>plugins.effects\<close> (which may be
  absent) and compares props objects by reference (\<open>!==\<close>); \<open>ref\<close> is the identity of the
  object.
\<close>

record 'p BoardProps =
  ref :: nat
  effects :: "'p Data option"

text \<open>\<open>EffectsOpts\<close> (lines 18-21) after the defaults of line 109 have been applied.\<close>

record EffectsOpts =
  speed :: real
  updateStateAfterEffects :: bool

text \<open>\<open>InteralState\<close>, lines 89-93.\<close>

record 'p InteralState =
  prevId :: "string option"
  startT :: real
  bgioProps :: "'p BoardProps"

text \<open>\<open>QueueState\<close>, lines 95-98.\<close>

record 'p QueueState =
  queue :: "'p Queue"
  activeQueue :: "'p Queue"

text \<open>
  The two mitt instances of lines 119-120. A call \<open>emitter.emit(type, effect)\<close> is recorded
  as one \<open>emission\<close>: the instance, the event type and the object handed over.
\<close>

datatype Emitter = emitter | endEmitter

record 'p emission =
  via :: Emitter
  evType :: string
  evt :: "('p, 'p BoardProps) InternalEffectShape"

text \<open>
  The component instance. \<open>boardProps\<close> is the props object of the latest render, which
  both callbacks close over; \<open>rafActive\<close> is the activity flag of \<open>useRafLoop\<close> (started
  inactive, line 194); \<open>emitted\<close> is the chronological record of all calls of
  \<open>emitter.emit\<close>; \<open>qStateUpdates\<close> counts the calls of \<open>setQueueState\<close>.
\<close>

record 'p component =
  state :: "'p InteralState"
  qState :: "'p QueueState"
  boardProps :: "'p BoardProps"
  rafActive :: bool
  emitted :: "'p emission list"
  qStateUpdates :: nat

section \<open>Operations\<close>

text \<open>Lines 48-59: \<open>setState\<close> of \<open>useRefState\<close> writes the ref cell and asks for a rerender.\<close>

definition setQueueState :: "'p QueueState \<Rightarrow> 'p component \<Rightarrow> 'p component" where
  "setQueueState newState s = s\<lparr>qState := newState, qStateUpdates := Suc (qStateUpdates s)\<rparr>"

text \<open>Lines 65-72.\<close>

definition emit :: "Emitter \<Rightarrow> 'p Effect \<Rightarrow> 'p BoardProps \<Rightarrow> 'p component \<Rightarrow> 'p component" where
  "emit em eff bp s =
     (let effect = \<lparr>InternalEffectShape.payload = payload eff, InternalEffectShape.boardProps = bp\<rparr>
      in s\<lparr>emitted := emitted s @ [\<lparr>via = em, evType = type eff, evt = effect\<rparr>]\<rparr>)"

text \<open>Lines 79-87.\<close>

fun emitAllEffects :: "Emitter \<Rightarrow> 'p Queue \<Rightarrow> 'p BoardProps \<Rightarrow> 'p component \<Rightarrow> 'p component" where
  "emitAllEffects em [] bp s = s"
| "emitAllEffects em (effect # rest) bp s = emitAllEffects em rest bp (emit em effect bp s)"

text \<open>The three functions returned by \<open>useRafLoop\<close> (react-use): stop, start, isActive.\<close>

definition stopRaf :: "'p component \<Rightarrow> 'p component" where
  "stopRaf s = s\<lparr>rafActive := False\<rparr>"

definition startRaf :: "'p component \<Rightarrow> 'p component" where
  "startRaf s = s\<lparr>rafActive := True\<rparr>"

definition isRafActive :: "'p component \<Rightarrow> bool" where
  "isRafActive s = rafActive s"

text \<open>Lines 115-118, computed from the props of the latest render.\<close>

definition id_of :: "'p BoardProps \<Rightarrow> string option" where
  "id_of bp = (case effects bp of None \<Rightarrow> None | Some d \<Rightarrow> Some (id' d))"

definition duration_of :: "'p BoardProps \<Rightarrow> real" where
  "duration_of bp = (case effects bp of None \<Rightarrow> 0 | Some d \<Rightarrow> duration d)"

definition bgioStateT :: "EffectsOpts \<Rightarrow> 'p BoardProps \<Rightarrow> real" where
  "bgioStateT opts bp = (if updateStateAfterEffects opts then duration_of bp else 0)"

text \<open>Line 146, with \<open>now\<close> the value of \<open>performance.now()\<close>.\<close>

definition elapsedT :: "EffectsOpts \<Rightarrow> real \<Rightarrow> 'p component \<Rightarrow> real" where
  "elapsedT opts now s = ((now - startT (state s)) / 1000) * speed opts"

text \<open>
  Lines 150-158: the loop over the active queue. The accumulator is
  \<open>(newActiveQueue, ended, s)\<close>.
\<close>

fun activeLoop ::
  "real \<Rightarrow> 'p BoardProps \<Rightarrow> 'p Queue \<Rightarrow> 'p Queue \<times> bool \<times> 'p component
     \<Rightarrow> 'p Queue \<times> bool \<times> 'p component" where
  "activeLoop e bp [] acc = acc"
| "activeLoop e bp (effect # rest) (newActiveQueue, ended, s) =
     (if endT effect > e
      then activeLoop e bp rest (newActiveQueue @ [effect], ended, s)
      else activeLoop e bp rest (newActiveQueue, True, emit endEmitter effect bp s))"

text \<open>
  Lines 160-166: the loop over the pending queue, left at the first effect with
  \<open>t > elapsedT\<close>. The accumulator is \<open>(i, newActiveQueue, s)\<close>.
\<close>

fun queueLoop ::
  "real \<Rightarrow> 'p BoardProps \<Rightarrow> 'p Queue \<Rightarrow> nat \<times> 'p Queue \<times> 'p component
     \<Rightarrow> nat \<times> 'p Queue \<times> 'p component" where
  "queueLoop e bp [] acc = acc"
| "queueLoop e bp (effect # rest) (i, newActiveQueue, s) =
     (if t effect > e
      then (i, newActiveQueue, s)
      else queueLoop e bp rest (Suc i, newActiveQueue @ [effect], emit emitter effect bp s))"

text \<open>Lines 145-194: the callback of the animation-frame loop.\<close>

definition rafCallback :: "EffectsOpts \<Rightarrow> real \<Rightarrow> 'p component \<Rightarrow> 'p component" where
  "rafCallback opts now s =
     (let e = elapsedT opts now s;
          bp = boardProps s;
          (newActiveQueue, ended, s1) = activeLoop e bp (activeQueue (qState s)) ([], False, s);
          (i, newActiveQueue, s2) = queueLoop e bp (queue (qState s)) (0, newActiveQueue, s1);
          s3 = (if e \<ge> bgioStateT opts bp \<and> ref bp \<noteq> ref (bgioProps (state s))
                then s2\<lparr>state := (state s)\<lparr>bgioProps := bp\<rparr>\<rparr>
                else s2);
          s4 = (if e > duration_of bp then stopRaf s3 else s3);
          updateQueue = qState s4
      in if i > 0 \<or> ended
         then let updateQueue = updateQueue\<lparr>activeQueue := newActiveQueue\<rparr>;
                  updateQueue = (if i > 0
                                 then updateQueue\<lparr>queue := drop i (queue (qState s4))\<rparr>
                                 else updateQueue)
              in setQueueState updateQueue s4
         else s4)"

text \<open>
  Lines 199-234: the body of the effect that reacts to an update from boardgame.io.
  \<open>nonEffectChange\<close> is the branch of lines 204-217, taken when \<open>effects\<close> is absent or
  carries the id of \<open>state.prevId\<close>.
\<close>

definition useEffect_body :: "EffectsOpts \<Rightarrow> real \<Rightarrow> 'p component \<Rightarrow> 'p component" where
  "useEffect_body opts now s =
     (let update = state s;
          bp = boardProps s;
          nonEffectChange =
            (if (\<not> updateStateAfterEffects opts \<or> \<not> isRafActive s)
                \<and> ref bp \<noteq> ref (bgioProps (state s))
             then s\<lparr>state := update\<lparr>bgioProps := bp\<rparr>\<rparr>
             else s)
      in case effects bp of
           None \<Rightarrow> nonEffectChange
         | Some data \<Rightarrow>
             if id_of bp = prevId (state s) then nonEffectChange
             else let update = update\<lparr>prevId := Some (id' data)\<rparr>;
                      s1 = emitAllEffects endEmitter (activeQueue (qState s)) bp s;
                      s2 = setQueueState \<lparr>queue = Data.queue data, activeQueue = []\<rparr> s1;
                      update = update\<lparr>startT := now\<rparr>;
                      s3 = s2\<lparr>state := update\<rparr>
                  in startRaf s3)"

text \<open>Lines 122-133 and 194: the instance after its first render.\<close>

definition mount :: "'p BoardProps \<Rightarrow> 'p component" where
  "mount bp =
     \<lparr>state = \<lparr>prevId = id_of bp, startT = 0, bgioProps = bp\<rparr>,
      qState = \<lparr>queue = [], activeQueue = []\<rparr>,
      boardProps = bp, rafActive = False, emitted = [], qStateUpdates = 0\<rparr>"

text \<open>
  What happens to an instance. \<open>Frame now\<close>: an animation frame at clock value \<open>now\<close>; the
  loop of \<open>useRafLoop\<close> calls the callback only while it is active. \<open>Observe bp now\<close>: a
  render with the props \<open>bp\<close> followed by the effect of lines 199-234, which reads the
  clock at \<open>now\<close>; the effect running again after a state change is \<open>Observe\<close> with the
  props unchanged. Render and effect are taken as one step, and a state update is
  visible to the next step.
\<close>

datatype 'p event = Frame real | Observe "'p BoardProps" real

fun step :: "EffectsOpts \<Rightarrow> 'p event \<Rightarrow> 'p component \<Rightarrow> 'p component" where
  "step opts (Frame now) s = (if rafActive s then rafCallback opts now s else s)"
| "step opts (Observe bp now) s = useEffect_body opts now (s\<lparr>boardProps := bp\<rparr>)"

fun run :: "EffectsOpts \<Rightarrow> 'p event list \<Rightarrow> 'p component \<Rightarrow> 'p component" where
  "run opts [] s = s"
| "run opts (ev # evs) s = run opts evs (step opts ev s)"

section \<open>Notions used to state the properties\<close>

text \<open>The event that \<open>emit\<close> hands to an emitter for an effect under the props \<open>bp\<close>.\<close>

definition emission_of :: "Emitter \<Rightarrow> 'p BoardProps \<Rightarrow> 'p Effect \<Rightarrow> 'p emission" where
  "emission_of em bp eff =
     \<lparr>via = em, evType = type eff,
      evt = \<lparr>InternalEffectShape.payload = payload eff, InternalEffectShape.boardProps = bp\<rparr>\<rparr>"

text \<open>
  The effects of the active queue that a tick at elapsed time \<open>e\<close> ends and keeps, and
  the front of the pending queue that it starts.
\<close>

definition justEnded :: "real \<Rightarrow> 'p component \<Rightarrow> 'p Queue" where
  "justEnded e s = filter (\<lambda>x. endT x \<le> e) (activeQueue (qState s))"

definition stillActive :: "real \<Rightarrow> 'p component \<Rightarrow> 'p Queue" where
  "stillActive e s = filter (\<lambda>x. endT x > e) (activeQueue (qState s))"

definition justStarted :: "real \<Rightarrow> 'p component \<Rightarrow> 'p Queue" where
  "justStarted e s = takeWhile (\<lambda>x. t x \<le> e) (queue (qState s))"

text \<open>
  An event that does not load another batch than \<open>pid\<close>: a frame, or props without
  effects data or with the id \<open>pid\<close>.
\<close>

fun keepsBatch :: "string option \<Rightarrow> 'p event \<Rightarrow> bool" where
  "keepsBatch pid (Frame now) = True"
| "keepsBatch pid (Observe bp now) = (effects bp = None \<or> id_of bp = pid)"

text \<open>
  Every frame of a run comes before the gate's threshold under
  \<open>updateStateAfterEffects\<close>. The threshold is \<open>duration\<close> as lines 117-118 compute it at
  that frame: the duration carried by the props of the latest render, 0 when they carry
  no effects data. The component keeps no duration of the batch it installed.
\<close>

fun beforeLatestDuration :: "EffectsOpts \<Rightarrow> 'p event list \<Rightarrow> 'p component \<Rightarrow> bool" where
  "beforeLatestDuration opts [] s = True"
| "beforeLatestDuration opts (Frame now # evs) s =
     (elapsedT opts now s < duration_of (boardProps s)
      \<and> beforeLatestDuration opts evs (step opts (Frame now) s))"
| "beforeLatestDuration opts (Observe bp now # evs) s =
     beforeLatestDuration opts evs (step opts (Observe bp now) s)"

text \<open>
  What a subscriber can tell of an effect: its type and its payload. \<open>fired em evs\<close>
  lists, in order, what the events of the emitter \<open>em\<close> in \<open>evs\<close> tell.
\<close>

definition sig :: "'p Effect \<Rightarrow> string \<times> 'p" where
  "sig x = (type x, payload x)"

definition fired :: "Emitter \<Rightarrow> 'p emission list \<Rightarrow> (string \<times> 'p) list" where
  "fired em evs =
     map (\<lambda>n. (evType n, InternalEffectShape.payload (evt n))) (filter (\<lambda>n. via n = em) evs)"

text \<open>
  The state of a batch \<open>d\<close> whose events begin at position \<open>L\<close> of the record of events:
  the started effects and the pending queue make up the batch, in order, and every
  started effect has either ended or is active.
\<close>

definition batchInv :: "'p Data \<Rightarrow> nat \<Rightarrow> 'p component \<Rightarrow> bool" where
  "batchInv d L s \<longleftrightarrow>
     L \<le> length (emitted s)
   \<and> prevId (state s) = Some (id' d)
   \<and> fired emitter (drop L (emitted s)) @ map sig (queue (qState s)) = map sig (Data.queue d)
   \<and> mset (fired endEmitter (drop L (emitted s))) + mset (map sig (activeQueue (qState s)))
       = mset (fired emitter (drop L (emitted s)))"

section \<open>Concrete instances\<close>

text \<open>
  The batch \<open>b1\<close> of the scenario: two effects of type \<open>dmg\<close>, total duration 1.5. The
  instance is mounted with props that carry no effects data and then observes \<open>b1\<close>
  when the clock reads 0; the speed is 1.
\<close>

definition dmg1 :: "unit Effect" where
  "dmg1 = \<lparr>type = ''dmg'', payload = (), t = 0, endT = 1\<rparr>"

definition dmg2 :: "unit Effect" where
  "dmg2 = \<lparr>type = ''dmg'', payload = (), t = 0.5, endT = 1.5\<rparr>"

definition b1 :: "unit Data" where
  "b1 = \<lparr>id' = ''b1'', duration = 1.5, Data.queue = [dmg1, dmg2]\<rparr>"

definition props0 :: "unit BoardProps" where
  "props0 = \<lparr>ref = 0, effects = None\<rparr>"

definition props1 :: "unit BoardProps" where
  "props1 = \<lparr>ref = 1, effects = Some b1\<rparr>"

definition opts1 :: EffectsOpts where
  "opts1 = \<lparr>speed = 1, updateStateAfterEffects = False\<rparr>"

text \<open>
  A second batch \<open>b2\<close>, props that carry \<open>b1\<close> again in a new object, and the options
  with \<open>updateStateAfterEffects\<close> set.
\<close>

definition heal :: "unit Effect" where
  "heal = \<lparr>type = ''heal'', payload = (), t = 0, endT = 1\<rparr>"

definition b2 :: "unit Data" where
  "b2 = \<lparr>id' = ''b2'', duration = 1, Data.queue = [heal]\<rparr>"

definition props2 :: "unit BoardProps" where
  "props2 = \<lparr>ref = 2, effects = Some b2\<rparr>"

definition props1' :: "unit BoardProps" where
  "props1' = \<lparr>ref = 3, effects = Some b1\<rparr>"

definition opts2 :: EffectsOpts where
  "opts2 = \<lparr>speed = 1, updateStateAfterEffects = True\<rparr>"

text \<open>A batch \<open>b0\<close> whose only effect has \<open>endT = t\<close>.\<close>

definition flash :: "unit Effect" where
  "flash = \<lparr>type = ''flash'', payload = (), t = 0, endT = 0\<rparr>"

definition b0 :: "unit Data" where
  "b0 = \<lparr>id' = ''b0'', duration = 0, Data.queue = [flash]\<rparr>"

definition props3 :: "unit BoardProps" where
  "props3 = \<lparr>ref = 4, effects = Some b0\<rparr>"

text \<open>
  A batch \<open>b3\<close> of duration 2, carried by two different props objects, for the scenario
  of the deferred update.
\<close>

definition b3 :: "unit Data" where
  "b3 = \<lparr>id' = ''b3'', duration = 2, Data.queue = [dmg1, dmg2]\<rparr>"

definition props4 :: "unit BoardProps" where
  "props4 = \<lparr>ref = 5, effects = Some b3\<rparr>"

definition props5 :: "unit BoardProps" where
  "props5 = \<lparr>ref = 6, effects = Some b3\<rparr>"

text \<open>Props without effects data, in another object than \<open>props0\<close>.\<close>

definition props8 :: "unit BoardProps" where
  "props8 = \<lparr>ref = 9, effects = None\<rparr>"

text \<open>A batch \<open>b4\<close> whose effect ends after the batch's duration.\<close>

definition glow :: "unit Effect" where
  "glow = \<lparr>type = ''glow'', payload = (), t = 0.5, endT = 3\<rparr>"

definition b4 :: "unit Data" where
  "b4 = \<lparr>id' = ''b4'', duration = 1, Data.queue = [glow]\<rparr>"

definition props6 :: "unit BoardProps" where
  "props6 = \<lparr>ref = 7, effects = Some b4\<rparr>"

text \<open>A batch \<open>b5\<close> of two effects with different types.\<close>

definition b5 :: "unit Data" where
  "b5 = \<lparr>id' = ''b5'', duration = 3, Data.queue = [flash, glow]\<rparr>"

definition props7 :: "unit BoardProps" where
  "props7 = \<lparr>ref = 8, effects = Some b5\<rparr>"

section \<open>What the loops and the two callbacks compute\<close>

lemma emit_eq: "emit em eff bp s = s\<lparr>emitted := emitted s @ [emission_of em bp eff]\<rparr>"
  by (simp add: emit_def emission_of_def)

lemma emitAllEffects_eq:
  "emitAllEffects em xs bp s = s\<lparr>emitted := emitted s @ map (emission_of em bp) xs\<rparr>"
  by (induction xs arbitrary: s) (simp_all add: emit_eq)

lemma activeLoop_eq:
  "activeLoop e bp xs (nq, ended, s) =
     (nq @ filter (\<lambda>x. endT x > e) xs,
      ended \<or> (\<exists>x \<in> set xs. endT x \<le> e),
      s\<lparr>emitted := emitted s @ map (emission_of endEmitter bp) (filter (\<lambda>x. endT x \<le> e) xs)\<rparr>)"
  by (induction xs arbitrary: nq ended s) (auto simp add: emit_eq)

lemma queueLoop_eq:
  "queueLoop e bp xs (i, nq, s) =
     (i + length (takeWhile (\<lambda>x. t x \<le> e) xs),
      nq @ takeWhile (\<lambda>x. t x \<le> e) xs,
      s\<lparr>emitted := emitted s @ map (emission_of emitter bp) (takeWhile (\<lambda>x. t x \<le> e) xs)\<rparr>)"
  by (induction xs arbitrary: i nq s) (auto simp add: emit_eq)

lemma rafCallback_emitted:
  "emitted (rafCallback opts now s) =
     emitted s @ map (emission_of endEmitter (boardProps s)) (justEnded (elapsedT opts now s) s)
       @ map (emission_of emitter (boardProps s)) (justStarted (elapsedT opts now s) s)"
  by (simp add: rafCallback_def Let_def activeLoop_eq queueLoop_eq justEnded_def justStarted_def
      stopRaf_def setQueueState_def)

lemma rafCallback_qState:
  "qState (rafCallback opts now s) =
     \<lparr>queue = dropWhile (\<lambda>x. t x \<le> elapsedT opts now s) (queue (qState s)),
      activeQueue = stillActive (elapsedT opts now s) s @ justStarted (elapsedT opts now s) s\<rparr>"
proof -
  let ?e = "elapsedT opts now s"
  let ?P = "\<lambda>x. t x \<le> ?e"
  have d: "drop (length (takeWhile ?P (queue (qState s)))) (queue (qState s)) = dropWhile ?P (queue (qState s))"
    by (simp add: dropWhile_eq_drop)
  have idle_q: "takeWhile ?P (queue (qState s)) = [] \<Longrightarrow> dropWhile ?P (queue (qState s)) = queue (qState s)"
    by (simp add: dropWhile_eq_drop)
  have idle_a: "\<not> (\<exists>x \<in> set (activeQueue (qState s)). endT x \<le> ?e)
      \<Longrightarrow> filter (\<lambda>x. endT x > ?e) (activeQueue (qState s)) = activeQueue (qState s)"
    by (simp add: filter_id_conv not_le)
  show ?thesis
    using d idle_q idle_a
    by (auto simp add: rafCallback_def Let_def activeLoop_eq queueLoop_eq stillActive_def
        justStarted_def stopRaf_def setQueueState_def)
qed



lemma rafCallback_state:
  "state (rafCallback opts now s) =
     (if elapsedT opts now s \<ge> bgioStateT opts (boardProps s)
         \<and> ref (boardProps s) \<noteq> ref (bgioProps (state s))
      then (state s)\<lparr>bgioProps := boardProps s\<rparr> else state s)"
  by (simp add: rafCallback_def Let_def activeLoop_eq queueLoop_eq stopRaf_def setQueueState_def)

lemma rafCallback_rafActive:
  "rafActive (rafCallback opts now s) =
     (rafActive s \<and> \<not> elapsedT opts now s > duration_of (boardProps s))"
  by (simp add: rafCallback_def Let_def activeLoop_eq queueLoop_eq stopRaf_def setQueueState_def)

lemma rafCallback_boardProps: "boardProps (rafCallback opts now s) = boardProps s"
  by (simp add: rafCallback_def Let_def activeLoop_eq queueLoop_eq stopRaf_def setQueueState_def)

lemma rafCallback_qStateUpdates:
  "qStateUpdates (rafCallback opts now s) =
     (if justStarted (elapsedT opts now s) s \<noteq> [] \<or> justEnded (elapsedT opts now s) s \<noteq> []
      then Suc (qStateUpdates s) else qStateUpdates s)"
  by (auto simp add: rafCallback_def Let_def activeLoop_eq queueLoop_eq stopRaf_def
      setQueueState_def justStarted_def justEnded_def filter_empty_conv)

lemma useEffect_body_same:
  "effects (boardProps s) = None \<or> id_of (boardProps s) = prevId (state s) \<Longrightarrow>
   useEffect_body opts now s =
     (if (\<not> updateStateAfterEffects opts \<or> \<not> rafActive s)
         \<and> ref (boardProps s) \<noteq> ref (bgioProps (state s))
      then s\<lparr>state := (state s)\<lparr>bgioProps := boardProps s\<rparr>\<rparr> else s)"
  by (auto simp add: useEffect_body_def Let_def isRafActive_def split: option.splits)

lemma useEffect_body_swap:
  "effects (boardProps s) = Some d \<Longrightarrow> prevId (state s) \<noteq> Some (id' d) \<Longrightarrow>
   useEffect_body opts now s =
     s\<lparr>state := (state s)\<lparr>prevId := Some (id' d), startT := now\<rparr>,
       qState := \<lparr>queue = Data.queue d, activeQueue = []\<rparr>,
       rafActive := True,
       emitted := emitted s @ map (emission_of endEmitter (boardProps s)) (activeQueue (qState s)),
       qStateUpdates := Suc (qStateUpdates s)\<rparr>"
  by (auto simp add: useEffect_body_def Let_def id_of_def emitAllEffects_eq setQueueState_def
      startRaf_def)

lemma takeWhile_sorted_t:
  "sorted (map t xs) \<Longrightarrow> takeWhile (\<lambda>x. t x \<le> e) xs = filter (\<lambda>x. t x \<le> e) xs"
proof (induction xs)
  case Nil
  then show ?case by simp
next
  case (Cons x xs)
  show ?case
  proof (cases "t x \<le> e")
    case True
    with Cons show ?thesis by simp
  next
    case False
    with Cons.prems have "\<forall>y \<in> set xs. \<not> t y \<le> e" by auto
    then have "filter (\<lambda>x. t x \<le> e) xs = []" by (simp add: filter_empty_conv)
    with False show ?thesis by simp
  qed
qed

lemma dropWhile_sorted_t:
  "sorted (map t xs) \<Longrightarrow> dropWhile (\<lambda>x. t x \<le> e) xs = filter (\<lambda>x. t x > e) xs"
proof (induction xs)
  case Nil
  then show ?case by simp
next
  case (Cons x xs)
  show ?case
  proof (cases "t x \<le> e")
    case True
    with Cons show ?thesis by simp
  next
    case False
    with Cons.prems have "\<forall>y \<in> set xs. t y > e" by auto
    then have "filter (\<lambda>x. t x > e) xs = xs" by (simp add: filter_id_conv)
    with False show ?thesis by simp
  qed
qed

section \<open>The scenario, step by step\<close>

lemmas eval_simps = rafCallback_def useEffect_body_def mount_def Let_def id_of_def
  duration_of_def bgioStateT_def elapsedT_def stopRaf_def startRaf_def isRafActive_def
  setQueueState_def emit_def emission_of_def

lemmas b1_simps = dmg1_def dmg2_def b1_def props0_def props1_def opts1_def

lemma b1_installed:
  "run opts1 [Observe props1 0] (mount props0) =
     \<lparr>state = \<lparr>prevId = Some ''b1'', startT = 0, bgioProps = props0\<rparr>,
      qState = \<lparr>queue = [dmg1, dmg2], activeQueue = []\<rparr>,
      boardProps = props1, rafActive = True, emitted = [], qStateUpdates = 1\<rparr>"
  by (simp add: eval_simps b1_simps)

lemma b1_at_0:
  "run opts1 [Observe props1 0, Frame 0] (mount props0) =
     \<lparr>state = \<lparr>prevId = Some ''b1'', startT = 0, bgioProps = props1\<rparr>,
      qState = \<lparr>queue = [dmg2], activeQueue = [dmg1]\<rparr>,
      boardProps = props1, rafActive = True,
      emitted = [emission_of emitter props1 dmg1], qStateUpdates = 2\<rparr>"
  by (simp add: eval_simps b1_simps)

section \<open>The per-tick advance\<close>

text \<open>
  C1. A tick at elapsed time \<open>e\<close> on a pending queue sorted by \<open>t\<close>: the new active queue
  is the old one without the effects with \<open>endT \<le> e\<close>, followed by the pending effects
  with \<open>t \<le> e\<close>; these are a prefix of the pending queue, the new pending queue is the
  rest and begins, if it is not empty, with an effect with \<open>t > e\<close>; each removed
  effect is emitted once on the end emitter, then each moved effect once on the start
  emitter.
\<close>

theorem tick_advance:
  assumes "sorted (map t (queue (qState s)))"
  shows "let e = elapsedT opts now s; s' = rafCallback opts now s in
           activeQueue (qState s') =
             filter (\<lambda>x. \<not> endT x \<le> e) (activeQueue (qState s))
               @ filter (\<lambda>x. t x \<le> e) (queue (qState s))
         \<and> queue (qState s) = filter (\<lambda>x. t x \<le> e) (queue (qState s)) @ queue (qState s')
         \<and> queue (qState s') = filter (\<lambda>x. \<not> t x \<le> e) (queue (qState s))
         \<and> (queue (qState s') \<noteq> [] \<longrightarrow> t (hd (queue (qState s'))) > e)
         \<and> emitted s' =
             emitted s
               @ map (emission_of endEmitter (boardProps s))
                   (filter (\<lambda>x. endT x \<le> e) (activeQueue (qState s)))
               @ map (emission_of emitter (boardProps s))
                   (filter (\<lambda>x. t x \<le> e) (queue (qState s)))"
proof -
  let ?e = "elapsedT opts now s"
  let ?q = "queue (qState s)"
  have q': "queue (qState (rafCallback opts now s)) = dropWhile (\<lambda>x. t x \<le> ?e) ?q"
    by (simp add: rafCallback_qState)
  have a': "activeQueue (qState (rafCallback opts now s)) = stillActive ?e s @ justStarted ?e s"
    by (simp add: rafCallback_qState)
  have st: "justStarted ?e s = filter (\<lambda>x. t x \<le> ?e) ?q"
    using assms by (simp add: justStarted_def takeWhile_sorted_t)
  have sa: "stillActive ?e s = filter (\<lambda>x. \<not> endT x \<le> ?e) (activeQueue (qState s))"
    by (simp add: stillActive_def not_le)
  have split: "?q = justStarted ?e s @ dropWhile (\<lambda>x. t x \<le> ?e) ?q"
    by (simp add: justStarted_def)
  have rest: "dropWhile (\<lambda>x. t x \<le> ?e) ?q = filter (\<lambda>x. \<not> t x \<le> ?e) ?q"
    using assms by (simp add: dropWhile_sorted_t not_le)
  have hd: "dropWhile (\<lambda>x. t x \<le> ?e) ?q \<noteq> []
      \<Longrightarrow> t (hd (dropWhile (\<lambda>x. t x \<le> ?e) ?q)) > ?e"
    using hd_dropWhile [of "\<lambda>x. t x \<le> ?e" ?q] by (simp add: not_le)
  have em: "emitted (rafCallback opts now s) =
      emitted s @ map (emission_of endEmitter (boardProps s))
                    (filter (\<lambda>x. endT x \<le> ?e) (activeQueue (qState s)))
                @ map (emission_of emitter (boardProps s)) (justStarted ?e s)"
    by (simp add: rafCallback_emitted justEnded_def)
  show ?thesis
    unfolding Let_def q' a' em sa
    using split rest hd unfolding st by simp
qed

theorem tick_advance_witness:
  "sorted (map t (queue (qState (run opts1 [Observe props1 0, Frame 0] (mount props0)))))
   \<and> (let s = run opts1 [Observe props1 0, Frame 0] (mount props0);
           s' = rafCallback opts1 1000 s
       in elapsedT opts1 1000 s = 1
        \<and> activeQueue (qState s') = [dmg2] \<and> queue (qState s') = []
        \<and> emitted s' = emitted s @ [emission_of endEmitter props1 dmg1,
                                     emission_of emitter props1 dmg2])"
proof -
  let ?s = "run opts1 [Observe props1 0, Frame 0] (mount props0)"
  have h: "sorted (map t (queue (qState ?s)))"
    unfolding b1_at_0 by simp
  have e: "elapsedT opts1 1000 ?s = 1"
    unfolding b1_at_0 by (simp add: elapsedT_def opts1_def)
  show ?thesis
    using h tick_advance [OF h, of opts1 1000]
    unfolding Let_def e unfolding b1_at_0
    by (simp add: dmg1_def dmg2_def)
qed

section \<open>The effect that reacts to new props\<close>

lemma useEffect_body_boardProps: "boardProps (useEffect_body opts now s) = boardProps s"
  by (simp add: useEffect_body_def Let_def emitAllEffects_eq setQueueState_def startRaf_def
      split: option.splits)

lemma observe_swap:
  assumes "effects bp = Some d" and "prevId (state s) \<noteq> Some (id' d)"
  shows "step opts (Observe bp now) s =
     s\<lparr>state := (state s)\<lparr>prevId := Some (id' d), startT := now\<rparr>,
       qState := \<lparr>queue = Data.queue d, activeQueue = []\<rparr>,
       boardProps := bp,
       rafActive := True,
       emitted := emitted s @ map (emission_of endEmitter bp) (activeQueue (qState s)),
       qStateUpdates := Suc (qStateUpdates s)\<rparr>"
  using assms useEffect_body_swap [of "s\<lparr>boardProps := bp\<rparr>" d opts now] by simp

lemma observe_same:
  assumes "effects bp = None \<or> id_of bp = prevId (state s)"
  shows "step opts (Observe bp now) s =
     (if (\<not> updateStateAfterEffects opts \<or> \<not> rafActive s) \<and> ref bp \<noteq> ref (bgioProps (state s))
      then s\<lparr>state := (state s)\<lparr>bgioProps := bp\<rparr>, boardProps := bp\<rparr>
      else s\<lparr>boardProps := bp\<rparr>)"
  using assms useEffect_body_same [of "s\<lparr>boardProps := bp\<rparr>" opts now] by simp

text \<open>
  C2. When the props carry a batch whose id is not the loaded one, the effect emits one
  end event for every effect of the active queue it finds (the old batch's), each with
  the new props, and leaves the queue state \<open>{ queue: newBatch.queue, activeQueue: [] }\<close>,
  the start instant at the clock's value and the loop started. The flush reads the ref
  cell before \<open>setQueueState\<close> writes it: the emitted events are those of the old active
  queue, not of the empty new one.
\<close>

theorem batch_swap:
  assumes "effects bp = Some d" and "prevId (state s) \<noteq> Some (id' d)"
  shows "let s' = step opts (Observe bp now) s in
           emitted s' = emitted s @ map (emission_of endEmitter bp) (activeQueue (qState s))
         \<and> qState s' = \<lparr>queue = Data.queue d, activeQueue = []\<rparr>
         \<and> startT (state s') = now
         \<and> rafActive s'
         \<and> prevId (state s') = Some (id' d)"
  using assms by (simp add: observe_swap del: step.simps)

theorem batch_swap_witness:
  "effects props2 = Some b2
   \<and> prevId (state (run opts1 [Observe props1 0, Frame 0] (mount props0))) \<noteq> Some (id' b2)
   \<and> (let s = run opts1 [Observe props1 0, Frame 0] (mount props0);
           s' = step opts1 (Observe props2 600) s
       in activeQueue (qState s) = [dmg1]
        \<and> emitted s' = emitted s @ [emission_of endEmitter props2 dmg1]
        \<and> qState s' = \<lparr>queue = [heal], activeQueue = []\<rparr>
        \<and> startT (state s') = 600 \<and> rafActive s')"
proof -
  let ?s = "run opts1 [Observe props1 0, Frame 0] (mount props0)"
  have h1: "effects props2 = Some b2" by (simp add: props2_def)
  have h2: "prevId (state ?s) \<noteq> Some (id' b2)"
    unfolding b1_at_0 by (simp add: b2_def)
  show ?thesis
    using h1 h2 batch_swap [OF h1 h2, of opts1 600]
    unfolding Let_def unfolding b1_at_0 by (simp add: b2_def)
qed

text \<open>
  C7. When the props carry no effects data, or a batch with the loaded id, the effect
  leaves the two queues, the start instant, the loaded id, the loop and the emitters
  alone; the exposed props either stay or become the new props.
\<close>

theorem same_batch_frame:
  assumes "effects bp = None \<or> id_of bp = prevId (state s)"
  shows "let s' = step opts (Observe bp now) s in
           qState s' = qState s
         \<and> startT (state s') = startT (state s)
         \<and> prevId (state s') = prevId (state s)
         \<and> rafActive s' = rafActive s
         \<and> emitted s' = emitted s
         \<and> qStateUpdates s' = qStateUpdates s
         \<and> (bgioProps (state s') = bgioProps (state s) \<or> bgioProps (state s') = bp)"
  using assms by (simp add: observe_same del: step.simps)

theorem same_batch_frame_witness:
  "(effects props1' = None
      \<or> id_of props1' = prevId (state (run opts1 [Observe props1 0, Frame 0] (mount props0))))
   \<and> (let s = run opts1 [Observe props1 0, Frame 0] (mount props0);
           s' = step opts1 (Observe props1' 250) s
       in qState s' = \<lparr>queue = [dmg2], activeQueue = [dmg1]\<rparr>
        \<and> startT (state s') = 0 \<and> rafActive s' \<and> emitted s' = emitted s
        \<and> bgioProps (state s) = props1 \<and> bgioProps (state s') = props1')"
proof -
  let ?s = "run opts1 [Observe props1 0, Frame 0] (mount props0)"
  have h: "effects props1' = None \<or> id_of props1' = prevId (state ?s)"
    unfolding b1_at_0 by (simp add: props1'_def id_of_def b1_def)
  have e: "step opts1 (Observe props1' 250) ?s = 
     \<lparr>state = \<lparr>prevId = Some ''b1'', startT = 0, bgioProps = props1'\<rparr>,
      qState = \<lparr>queue = [dmg2], activeQueue = [dmg1]\<rparr>,
      boardProps = props1', rafActive = True,
      emitted = [emission_of emitter props1 dmg1], qStateUpdates = 2\<rparr>"
    unfolding b1_at_0 by (simp add: eval_simps b1_simps props1'_def)
  show ?thesis
    using h same_batch_frame [OF h, of opts1 250]
    unfolding Let_def e unfolding b1_at_0 by simp
qed

section \<open>Publication of the queue state\<close>

text \<open>
  C8. A tick calls \<open>setQueueState\<close> (once) if and only if it started or ended at least one
  effect; a tick that did neither leaves the queue state as it was.
\<close>

theorem queue_state_published_iff:
  "let e = elapsedT opts now s; s' = rafCallback opts now s in
     ((qStateUpdates s' = Suc (qStateUpdates s)) = (justStarted e s \<noteq> [] \<or> justEnded e s \<noteq> []))
   \<and> ((qStateUpdates s' = qStateUpdates s) = (justStarted e s = [] \<and> justEnded e s = []))
   \<and> (justStarted e s = [] \<and> justEnded e s = [] \<longrightarrow> qState s' = qState s)
   \<and> ((justStarted e s \<noteq> [] \<or> justEnded e s \<noteq> []) =
        (emitted s' \<noteq> emitted s))"
proof -
  let ?e = "elapsedT opts now s"
  have idle: "justStarted ?e s = [] \<and> justEnded ?e s = [] \<Longrightarrow> qState (rafCallback opts now s) = qState s"
    by (simp add: rafCallback_def Let_def activeLoop_eq queueLoop_eq stopRaf_def
        setQueueState_def justStarted_def justEnded_def filter_empty_conv)
  show ?thesis
    using idle by (auto simp add: Let_def rafCallback_qStateUpdates rafCallback_emitted)
qed

theorem queue_state_published_iff_witness:
  "(let s = run opts1 [Observe props1 0, Frame 0] (mount props0) in
      justStarted (elapsedT opts1 250 s) s = [] \<and> justEnded (elapsedT opts1 250 s) s = []
    \<and> qStateUpdates (rafCallback opts1 250 s) = qStateUpdates s
    \<and> qState (rafCallback opts1 250 s) = qState s
    \<and> justStarted (elapsedT opts1 500 s) s = [dmg2]
    \<and> qStateUpdates (rafCallback opts1 500 s) = Suc (qStateUpdates s))"
proof -
  let ?s = "run opts1 [Observe props1 0, Frame 0] (mount props0)"
  have e: "elapsedT opts1 250 ?s = 1/4" "elapsedT opts1 500 ?s = 1/2"
    unfolding b1_at_0 by (simp_all add: elapsedT_def opts1_def)
  have a: "justStarted (1/4) ?s = []" "justEnded (1/4) ?s = []" "justStarted (1/2) ?s = [dmg2]"
    unfolding b1_at_0 by (simp_all add: justStarted_def justEnded_def dmg1_def dmg2_def)
  show ?thesis
    using queue_state_published_iff [of opts1 250 ?s] queue_state_published_iff [of opts1 500 ?s]
    unfolding Let_def e using a by simp
qed

section \<open>Order of the events of one tick\<close>

text \<open>
  C4. The events of one tick are the end events followed by the start events. The end
  events are those of the effects that were in the active queue before the tick; every
  effect the tick starts is put into the new active queue whatever its \<open>endT\<close>, so an
  effect with \<open>endT = t\<close> is started by one tick and ended by a later one.
\<close>

theorem ends_before_starts:
  "let e = elapsedT opts now s; s' = rafCallback opts now s;
       E = map (emission_of endEmitter (boardProps s)) (justEnded e s);
       S = map (emission_of emitter (boardProps s)) (justStarted e s)
   in emitted s' = emitted s @ E @ S
    \<and> (\<forall>n \<in> set E. via n = endEmitter)
    \<and> (\<forall>n \<in> set S. via n = emitter)
    \<and> justEnded e s = filter (\<lambda>x. endT x \<le> e) (activeQueue (qState s))
    \<and> activeQueue (qState s') = stillActive e s @ justStarted e s
    \<and> (\<forall>x \<in> set (justStarted e s). x \<in> set (activeQueue (qState s')))"
  by (simp add: Let_def rafCallback_emitted rafCallback_qState emission_of_def justEnded_def)

theorem ends_before_starts_witness:
  "(let s = run opts1 [Observe props3 0] (mount props0);
        s' = rafCallback opts1 0 s;
        s'' = rafCallback opts1 16 s'
    in justStarted (elapsedT opts1 0 s) s = [flash]
     \<and> emitted s' = [emission_of emitter props3 flash]
     \<and> activeQueue (qState s') = [flash]
     \<and> emitted s'' = [emission_of emitter props3 flash, emission_of endEmitter props3 flash]
     \<and> activeQueue (qState s'') = [])"
proof -
  let ?s = "run opts1 [Observe props3 0] (mount props0)"
  have s: "?s = \<lparr>state = \<lparr>prevId = Some ''b0'', startT = 0, bgioProps = props0\<rparr>,
      qState = \<lparr>queue = [flash], activeQueue = []\<rparr>,
      boardProps = props3, rafActive = True, emitted = [], qStateUpdates = 1\<rparr>"
    by (simp add: eval_simps props0_def props3_def b0_def)
  have e: "elapsedT opts1 0 ?s = 0"
    unfolding s by (simp add: elapsedT_def opts1_def)
  have a: "justStarted 0 ?s = [flash]" "justEnded 0 ?s = []" "stillActive 0 ?s = []"
    unfolding s by (simp_all add: justStarted_def justEnded_def stillActive_def flash_def)
  have s': "rafCallback opts1 0 ?s = \<lparr>state = \<lparr>prevId = Some ''b0'', startT = 0, bgioProps = props3\<rparr>,
      qState = \<lparr>queue = [], activeQueue = [flash]\<rparr>,
      boardProps = props3, rafActive = True, emitted = [emission_of emitter props3 flash],
      qStateUpdates = 2\<rparr>"
    unfolding s by (simp add: eval_simps props0_def props3_def b0_def flash_def opts1_def)
  have s'': "emitted (rafCallback opts1 16 (rafCallback opts1 0 ?s)) =
        [emission_of emitter props3 flash, emission_of endEmitter props3 flash]"
      "activeQueue (qState (rafCallback opts1 16 (rafCallback opts1 0 ?s))) = []"
    unfolding s' by (simp_all add: eval_simps props0_def props3_def b0_def flash_def opts1_def)
  show ?thesis
    using ends_before_starts [of opts1 0 ?s]
    unfolding Let_def e a s'' using a s' by simp
qed

section \<open>What the subscribers receive\<close>

lemma step_emitted:
  "\<exists>E S. emitted (step opts ev s) =
            emitted s @ map (emission_of endEmitter (boardProps (step opts ev s))) E
                      @ map (emission_of emitter (boardProps (step opts ev s))) S
         \<and> set E \<subseteq> set (activeQueue (qState s)) \<and> set S \<subseteq> set (queue (qState s))"
proof (cases ev)
  case (Frame now)
  show ?thesis
  proof (cases "rafActive s")
    case True
    have "set (justEnded (elapsedT opts now s) s) \<subseteq> set (activeQueue (qState s))"
      by (auto simp add: justEnded_def)
    moreover have "set (justStarted (elapsedT opts now s) s) \<subseteq> set (queue (qState s))"
      by (auto simp add: justStarted_def dest: set_takeWhileD)
    ultimately show ?thesis
      using Frame True rafCallback_emitted [of opts now s]
      by (auto simp add: rafCallback_boardProps)
  next
    case False
    have "emitted s = emitted s @ map (emission_of endEmitter (boardProps s)) []
                        @ map (emission_of emitter (boardProps s)) []"
      by simp
    with Frame False show ?thesis by fastforce
  qed
next
  case (Observe bp now)
  show ?thesis
  proof (cases "effects bp = None \<or> id_of bp = prevId (state s)")
    case True
    have "emitted (step opts (Observe bp now) s) = emitted s"
      using True by (simp add: observe_same del: step.simps)
    then have "emitted (step opts ev s) =
        emitted s @ map (emission_of endEmitter (boardProps (step opts ev s))) []
                  @ map (emission_of emitter (boardProps (step opts ev s))) []"
      using Observe by simp
    then show ?thesis by fastforce
  next
    case False
    then obtain d where d: "effects bp = Some d" "prevId (state s) \<noteq> Some (id' d)"
      by (auto simp add: id_of_def)
    have "emitted (step opts ev s) =
        emitted s @ map (emission_of endEmitter (boardProps (step opts ev s))) (activeQueue (qState s))
                  @ map (emission_of emitter (boardProps (step opts ev s))) []"
      using Observe by (simp add: observe_swap [OF d] del: step.simps)
    then show ?thesis by fastforce
  qed
qed

text \<open>
  C9. \<open>emit\<close> hands the emitter the effect's type and an object made of the effect's
  payload and the props it was called with. Every event that a frame or an update
  emits belongs to an effect of one of the two queues and carries the props of the
  latest render, whether or not these are the props exposed to the board.
\<close>

theorem emission_envelope:
  "emitted (emit em eff bp s) =
     emitted s @ [\<lparr>via = em, evType = type eff,
                   evt = \<lparr>InternalEffectShape.payload = payload eff,
                          InternalEffectShape.boardProps = bp\<rparr>\<rparr>]
   \<and> (\<forall>n \<in> set (drop (length (emitted s)) (emitted (step opts ev s))).
         InternalEffectShape.boardProps (evt n) = boardProps (step opts ev s)
       \<and> (\<exists>x \<in> set (activeQueue (qState s) @ queue (qState s)).
             evType n = type x \<and> InternalEffectShape.payload (evt n) = payload x))"
proof -
  obtain E S where es:
    "emitted (step opts ev s) =
       emitted s @ map (emission_of endEmitter (boardProps (step opts ev s))) E
                 @ map (emission_of emitter (boardProps (step opts ev s))) S"
    "set E \<subseteq> set (activeQueue (qState s))" "set S \<subseteq> set (queue (qState s))"
    using step_emitted [of opts ev s] by blast
  have "emitted (emit em eff bp s) =
     emitted s @ [\<lparr>via = em, evType = type eff,
                   evt = \<lparr>InternalEffectShape.payload = payload eff,
                          InternalEffectShape.boardProps = bp\<rparr>\<rparr>]"
    by (simp add: emit_def)
  moreover have "\<forall>n \<in> set (drop (length (emitted s)) (emitted (step opts ev s))).
         InternalEffectShape.boardProps (evt n) = boardProps (step opts ev s)
       \<and> (\<exists>x \<in> set (activeQueue (qState s) @ queue (qState s)).
             evType n = type x \<and> InternalEffectShape.payload (evt n) = payload x)"
    unfolding es(1) using es(2,3) by (auto simp add: emission_of_def)
  ultimately show ?thesis by blast
qed

theorem emission_envelope_witness:
  "(let s = run opts2 [Observe props1 0] (mount props0);
        s' = step opts2 (Frame 0) s
    in emitted s = [] \<and> emitted s' = [emission_of emitter props1 dmg1]
     \<and> bgioProps (state s') = props0
     \<and> (\<forall>n \<in> set (emitted s').
           InternalEffectShape.boardProps (evt n) = props1
         \<and> InternalEffectShape.boardProps (evt n) \<noteq> bgioProps (state s')
         \<and> InternalEffectShape.payload (evt n) = payload dmg1 \<and> evType n = ''dmg''))"
proof -
  let ?s = "run opts2 [Observe props1 0] (mount props0)"
  have s: "?s = \<lparr>state = \<lparr>prevId = Some ''b1'', startT = 0, bgioProps = props0\<rparr>,
      qState = \<lparr>queue = [dmg1, dmg2], activeQueue = []\<rparr>,
      boardProps = props1, rafActive = True, emitted = [], qStateUpdates = 1\<rparr>"
    by (simp add: eval_simps b1_simps opts2_def)
  have s': "step opts2 (Frame 0) ?s =
     \<lparr>state = \<lparr>prevId = Some ''b1'', startT = 0, bgioProps = props0\<rparr>,
      qState = \<lparr>queue = [dmg2], activeQueue = [dmg1]\<rparr>,
      boardProps = props1, rafActive = True,
      emitted = [emission_of emitter props1 dmg1], qStateUpdates = 2\<rparr>"
    unfolding s by (simp add: eval_simps b1_simps opts2_def)
  show ?thesis
    using emission_envelope [of emitter dmg1 props1 ?s opts2 "Frame 0"]
    unfolding Let_def s' unfolding s
    by (simp add: emission_of_def dmg1_def props0_def props1_def)
qed

section \<open>The deferred update of the exposed props\<close>

lemma deferred_observe:
  assumes "updateStateAfterEffects opts" and "rafActive s"
  shows "bgioProps (state (step opts (Observe bp now) s)) = bgioProps (state s)
       \<and> rafActive (step opts (Observe bp now) s)"
proof (cases "effects bp = None \<or> id_of bp = prevId (state s)")
  case True
  with assms show ?thesis by (simp add: observe_same del: step.simps)
next
  case False
  then obtain d where d: "effects bp = Some d" "prevId (state s) \<noteq> Some (id' d)"
    by (auto simp add: id_of_def)
  show ?thesis by (simp add: observe_swap [OF d] del: step.simps)
qed

lemma deferred_frame:
  assumes "updateStateAfterEffects opts" and "rafActive s"
  shows "bgioProps (state (step opts (Frame now) s)) =
           (if elapsedT opts now s \<ge> duration_of (boardProps s)
               \<and> ref (boardProps s) \<noteq> ref (bgioProps (state s))
            then boardProps s else bgioProps (state s))"
    and "rafActive (step opts (Frame now) s) = (\<not> elapsedT opts now s > duration_of (boardProps s))"
  using assms by (simp_all add: rafCallback_state rafCallback_rafActive bgioStateT_def)

lemma deferred_run:
  assumes "updateStateAfterEffects opts" and "rafActive s" and "beforeLatestDuration opts evs s"
  shows "bgioProps (state (run opts evs s)) = bgioProps (state s) \<and> rafActive (run opts evs s)"
  using assms(2,3)
proof (induction evs arbitrary: s)
  case Nil
  then show ?case by simp
next
  case (Cons ev evs)
  have rest: "beforeLatestDuration opts evs (step opts ev s)"
    using Cons.prems(2) by (cases ev) simp_all
  have st: "bgioProps (state (step opts ev s)) = bgioProps (state s) \<and> rafActive (step opts ev s)"
  proof (cases ev)
    case (Frame now)
    then have "elapsedT opts now s < duration_of (boardProps s)"
      using Cons.prems(2) by simp
    then show ?thesis
      unfolding Frame using deferred_frame [OF assms(1) Cons.prems(1), of now] by simp
  next
    case (Observe bp now)
    show ?thesis
      unfolding Observe using deferred_observe [OF assms(1) Cons.prems(1)] .
  qed
  with Cons.IH [OF _ rest] show ?case by simp
qed

text \<open>
  C3, as the code has it. With \<open>updateStateAfterEffects\<close> set and the loop running, an
  update never changes the props exposed to the board and leaves the loop running; a
  frame exposes the props of the latest render exactly when the elapsed time has
  reached the duration that these props carry, which is 0 when they carry no effects
  data, and stops the loop exactly when the elapsed time exceeds it. So no sequence of
  updates and of frames that come before that duration changes the exposed props.
\<close>

theorem deferred_until_latest_duration:
  assumes "updateStateAfterEffects opts" and "rafActive s"
  shows "bgioProps (state (step opts (Observe bp now') s)) = bgioProps (state s)
       \<and> rafActive (step opts (Observe bp now') s)
       \<and> bgioProps (state (step opts (Frame now) s)) =
           (if elapsedT opts now s \<ge> duration_of (boardProps s)
               \<and> ref (boardProps s) \<noteq> ref (bgioProps (state s))
            then boardProps s else bgioProps (state s))
       \<and> rafActive (step opts (Frame now) s) = (\<not> elapsedT opts now s > duration_of (boardProps s))
       \<and> (beforeLatestDuration opts evs s \<longrightarrow>
            bgioProps (state (run opts evs s)) = bgioProps (state s) \<and> rafActive (run opts evs s))"
  using deferred_observe [OF assms, of bp now'] deferred_frame [OF assms, of now]
    deferred_run [OF assms, of evs]
  by blast

theorem deferred_until_latest_duration_witness:
  "updateStateAfterEffects opts2
   \<and> (let s = run opts2 [Observe props4 0, Frame 0, Frame 500] (mount props0);
           evs = [Observe props5 1000, Frame 1000, Frame 1500, Frame 1999]
       in rafActive s \<and> beforeLatestDuration opts2 evs s
        \<and> elapsedT opts2 1000 s = 1
        \<and> bgioProps (state s) = props0
        \<and> boardProps (run opts2 evs s) = props5
        \<and> duration_of (boardProps (run opts2 evs s)) = 2
        \<and> bgioProps (state (run opts2 evs s)) = props0
        \<and> elapsedT opts2 2000 (run opts2 evs s) = 2
        \<and> bgioProps (state (step opts2 (Frame 2000) (run opts2 evs s))) = props5)"
proof -
  let ?s = "run opts2 [Observe props4 0, Frame 0, Frame 500] (mount props0)"
  let ?evs = "[Observe props5 1000, Frame 1000, Frame 1500, Frame 1999]"
  let ?s' = "run opts2 ?evs ?s"
  have s: "?s = \<lparr>state = \<lparr>prevId = Some ''b3'', startT = 0, bgioProps = props0\<rparr>,
      qState = \<lparr>queue = [], activeQueue = [dmg1, dmg2]\<rparr>,
      boardProps = props4, rafActive = True,
      emitted = [emission_of emitter props4 dmg1, emission_of emitter props4 dmg2],
      qStateUpdates = 3\<rparr>"
    by (simp add: eval_simps b1_simps opts2_def b3_def props4_def)
  have h1: "updateStateAfterEffects opts2" by (simp add: opts2_def)
  have h2: "rafActive ?s" unfolding s by simp
  have h3: "beforeLatestDuration opts2 ?evs ?s"
    unfolding s by (simp add: eval_simps b1_simps opts2_def b3_def props4_def props5_def)
  have e: "elapsedT opts2 1000 ?s = 1"
    unfolding s by (simp add: elapsedT_def opts2_def)
  have b: "bgioProps (state ?s) = props0" unfolding s by simp
  have r: "boardProps ?s' = props5" "startT (state ?s') = 0"
    unfolding s by (simp_all add: eval_simps b1_simps opts2_def b3_def props4_def props5_def)
  have d: "duration_of (boardProps ?s') = 2"
    unfolding r by (simp add: duration_of_def props5_def b3_def)
  have e2: "elapsedT opts2 2000 ?s' = 2"
    unfolding elapsedT_def r by (simp add: opts2_def)
  have c: "bgioProps (state ?s') = props0" "rafActive ?s'"
    using deferred_until_latest_duration [OF h1 h2, where evs = ?evs] h3 b by (simp_all only:)
  have f: "bgioProps (state (step opts2 (Frame 2000) ?s')) = props5"
  proof -
    have "bgioProps (state (step opts2 (Frame 2000) ?s')) =
        (if elapsedT opts2 2000 ?s' \<ge> duration_of (boardProps ?s')
            \<and> ref (boardProps ?s') \<noteq> ref (bgioProps (state ?s'))
         then boardProps ?s' else bgioProps (state ?s'))"
      using deferred_until_latest_duration [OF h1 c(2), where now = 2000] by blast
    then have "bgioProps (state (step opts2 (Frame 2000) ?s')) =
        (if (2::real) \<ge> 2 \<and> ref props5 \<noteq> ref props0 then props5 else props0)"
      unfolding e2 d unfolding r(1) c(1) .
    also have "\<dots> = props5"
      by (simp add: props5_def props0_def)
    finally show ?thesis .
  qed
  show ?thesis
    unfolding Let_def by (intro conjI h1 h2 h3 e b r(1) d c(1) e2 f)
qed

text \<open>
  C3, as the spec has it, fails when props without effects data arrive while a batch is
  playing. Batch \<open>b3\<close> of duration 2 is playing with \<open>updateStateAfterEffects\<close> set and the
  props of the mount exposed; props without effects data are rendered at elapsed time
  0.8: the duration of line 117 becomes 0, and the frame at elapsed time 0.9 exposes
  them (and stops the loop with both effects still active).
\<close>

theorem deferred_until_duration_counterexample:
  "updateStateAfterEffects opts2
   \<and> duration b3 = 2
   \<and> prevId (state (run opts2 [Observe props4 0, Frame 0, Frame 500, Observe props8 800] (mount props0)))
       = Some (id' b3)
   \<and> rafActive (run opts2 [Observe props4 0, Frame 0, Frame 500, Observe props8 800] (mount props0))
   \<and> bgioProps (state (run opts2 [Observe props4 0, Frame 0, Frame 500, Observe props8 800] (mount props0)))
       = props0
   \<and> elapsedT opts2 900 (run opts2 [Observe props4 0, Frame 0, Frame 500, Observe props8 800] (mount props0))
       = 0.9
   \<and> bgioProps (state (run opts2 [Observe props4 0, Frame 0, Frame 500, Observe props8 800, Frame 900]
         (mount props0))) = props8
   \<and> props8 \<noteq> props0
   \<and> rafActive (run opts2 [Observe props4 0, Frame 0, Frame 500, Observe props8 800, Frame 900]
         (mount props0)) = False
   \<and> activeQueue (qState (run opts2 [Observe props4 0, Frame 0, Frame 500, Observe props8 800, Frame 900]
         (mount props0))) = [dmg1, dmg2]"
  by (simp add: eval_simps b1_simps opts2_def b3_def props4_def props8_def)

section \<open>After the loop has stopped\<close>

lemma stopped_step:
  assumes "\<not> rafActive s" and "keepsBatch (prevId (state s)) ev"
  shows "qState (step opts ev s) = qState s \<and> emitted (step opts ev s) = emitted s
       \<and> \<not> rafActive (step opts ev s) \<and> prevId (state (step opts ev s)) = prevId (state s)"
proof (cases ev)
  case (Frame now)
  with assms show ?thesis by simp
next
  case (Observe bp now)
  with assms have "effects bp = None \<or> id_of bp = prevId (state s)" by simp
  with assms(1) Observe show ?thesis by (simp add: observe_same del: step.simps)
qed

lemma stopped_run:
  assumes "\<not> rafActive s" and "\<forall>ev \<in> set evs. keepsBatch (prevId (state s)) ev"
  shows "qState (run opts evs s) = qState s \<and> emitted (run opts evs s) = emitted s
       \<and> \<not> rafActive (run opts evs s) \<and> prevId (state (run opts evs s)) = prevId (state s)"
  using assms
proof (induction evs arbitrary: s)
  case Nil
  then show ?case by simp
next
  case (Cons ev evs)
  have st: "qState (step opts ev s) = qState s \<and> emitted (step opts ev s) = emitted s
       \<and> \<not> rafActive (step opts ev s) \<and> prevId (state (step opts ev s)) = prevId (state s)"
    using stopped_step [of s ev opts] Cons.prems by simp
  then have "\<forall>ev' \<in> set evs. keepsBatch (prevId (state (step opts ev s))) ev'"
    using Cons.prems(2) by simp
  with Cons.IH [of "step opts ev s"] st show ?case by simp
qed

text \<open>
  C10. A frame with \<open>elapsedT > duration\<close> stops the loop. The effects it leaves in the
  active queue (those that were active with \<open>endT > elapsedT\<close>, and those it started)
  stay there through every later frame and every update that does not load another
  batch, and nothing is emitted; when an update loads another batch, one end event is
  emitted for each of them.
\<close>

theorem stopped_loop_keeps_active:
  assumes "rafActive s" and "elapsedT opts now s > duration_of (boardProps s)"
    and "\<forall>ev \<in> set evs. keepsBatch (prevId (state s)) ev"
  shows "let e = elapsedT opts now s;
             s' = step opts (Frame now) s;
             s'' = run opts evs s'
         in \<not> rafActive s'
          \<and> activeQueue (qState s') = stillActive e s @ justStarted e s
          \<and> (\<forall>x \<in> set (activeQueue (qState s)). endT x > e \<longrightarrow> x \<in> set (activeQueue (qState s')))
          \<and> qState s'' = qState s' \<and> emitted s'' = emitted s' \<and> \<not> rafActive s''
          \<and> (\<forall>bp d now'. effects bp = Some d \<and> prevId (state s) \<noteq> Some (id' d) \<longrightarrow>
                emitted (step opts (Observe bp now') s'') =
                  emitted s'' @ map (emission_of endEmitter bp) (activeQueue (qState s'))
                \<and> activeQueue (qState (step opts (Observe bp now') s'')) = [])"
proof -
  let ?e = "elapsedT opts now s"
  let ?s' = "step opts (Frame now) s"
  let ?s'' = "run opts evs ?s'"
  have s': "?s' = rafCallback opts now s" using assms(1) by simp
  have stop: "\<not> rafActive ?s'"
    unfolding s' using assms(2) by (simp add: rafCallback_rafActive)
  have act: "activeQueue (qState ?s') = stillActive ?e s @ justStarted ?e s"
    unfolding s' by (simp add: rafCallback_qState)
  have pid: "prevId (state ?s') = prevId (state s)"
    unfolding s' by (simp add: rafCallback_state)
  have idle: "qState ?s'' = qState ?s' \<and> emitted ?s'' = emitted ?s' \<and> \<not> rafActive ?s''
       \<and> prevId (state ?s'') = prevId (state ?s')"
    using stopped_run [OF stop, of evs opts] assms(3) unfolding pid by blast
  have keep: "\<forall>x \<in> set (activeQueue (qState s)). endT x > ?e \<longrightarrow> x \<in> set (activeQueue (qState ?s'))"
    unfolding act by (simp add: stillActive_def)
  have swap: "\<forall>bp d now'. effects bp = Some d \<and> prevId (state s) \<noteq> Some (id' d) \<longrightarrow>
                emitted (step opts (Observe bp now') ?s'') =
                  emitted ?s'' @ map (emission_of endEmitter bp) (activeQueue (qState ?s'))
                \<and> activeQueue (qState (step opts (Observe bp now') ?s'')) = []"
  proof (intro allI impI)
    fix bp :: "'a BoardProps" and d now'
    assume a: "effects bp = Some d \<and> prevId (state s) \<noteq> Some (id' d)"
    then have d: "effects bp = Some d" "prevId (state ?s'') \<noteq> Some (id' d)"
      using idle pid by simp_all
    show "emitted (step opts (Observe bp now') ?s'') =
            emitted ?s'' @ map (emission_of endEmitter bp) (activeQueue (qState ?s'))
          \<and> activeQueue (qState (step opts (Observe bp now') ?s'')) = []"
      using idle by (simp add: observe_swap [OF d] del: step.simps)
  qed
  show ?thesis
    unfolding Let_def using stop act keep idle swap by blast
qed

theorem stopped_loop_keeps_active_witness:
  "rafActive (run opts1 [Observe props6 0, Frame 500] (mount props0))
   \<and> elapsedT opts1 1016 (run opts1 [Observe props6 0, Frame 500] (mount props0))
       > duration_of (boardProps (run opts1 [Observe props6 0, Frame 500] (mount props0)))
   \<and> list_all
         (keepsBatch (prevId (state (run opts1 [Observe props6 0, Frame 500] (mount props0)))))
         [Frame 2000, Observe props0 3000, Frame 4000]
   \<and> activeQueue (qState (run opts1
         [Observe props6 0, Frame 500, Frame 1016, Frame 2000, Observe props0 3000, Frame 4000]
         (mount props0))) = [glow]
   \<and> emitted (run opts1
         [Observe props6 0, Frame 500, Frame 1016, Frame 2000, Observe props0 3000, Frame 4000]
         (mount props0)) = [emission_of emitter props6 glow]
   \<and> emitted (run opts1
         [Observe props6 0, Frame 500, Frame 1016, Frame 2000, Observe props0 3000, Frame 4000,
          Observe props2 5000]
         (mount props0)) = [emission_of emitter props6 glow, emission_of endEmitter props2 glow]"
proof -
  let ?s = "run opts1 [Observe props6 0, Frame 500] (mount props0)"
  let ?evs = "[Frame 2000, Observe props0 3000, Frame 4000] :: unit event list"
  have s: "?s = \<lparr>state = \<lparr>prevId = Some ''b4'', startT = 0, bgioProps = props6\<rparr>,
      qState = \<lparr>queue = [], activeQueue = [glow]\<rparr>,
      boardProps = props6, rafActive = True,
      emitted = [emission_of emitter props6 glow], qStateUpdates = 2\<rparr>"
    by (simp add: eval_simps props0_def opts1_def props6_def b4_def glow_def)
  have h1: "rafActive ?s" unfolding s by simp
  have h2: "elapsedT opts1 1016 ?s > duration_of (boardProps ?s)"
    unfolding s by (simp add: elapsedT_def duration_of_def opts1_def props6_def b4_def)
  have h3: "\<forall>ev \<in> set ?evs. keepsBatch (prevId (state ?s)) ev"
    unfolding s by (simp add: props0_def)
  have r: "run opts1
         [Observe props6 0, Frame 500, Frame 1016, Frame 2000, Observe props0 3000, Frame 4000]
         (mount props0) = run opts1 ?evs (step opts1 (Frame 1016) ?s)"
    by simp
  have r2: "run opts1
         [Observe props6 0, Frame 500, Frame 1016, Frame 2000, Observe props0 3000, Frame 4000,
          Observe props2 5000]
         (mount props0) = step opts1 (Observe props2 5000) (run opts1 ?evs (step opts1 (Frame 1016) ?s))"
    by simp
  have q: "qState (step opts1 (Frame 1016) ?s) = \<lparr>queue = [], activeQueue = [glow]\<rparr>"
       "emitted (step opts1 (Frame 1016) ?s) = [emission_of emitter props6 glow]"
    unfolding s by (simp_all add: eval_simps props0_def opts1_def props6_def b4_def glow_def)
  have p: "effects props2 = Some b2 \<and> prevId (state ?s) \<noteq> Some (id' b2)"
    unfolding s by (simp add: props2_def b2_def)
  have h3': "list_all (keepsBatch (prevId (state ?s))) ?evs"
    using h3 by (simp only: list_all_iff)
  have c: "activeQueue (qState (run opts1 ?evs (step opts1 (Frame 1016) ?s))) = [glow]
      \<and> emitted (run opts1 ?evs (step opts1 (Frame 1016) ?s)) = [emission_of emitter props6 glow]
      \<and> emitted (step opts1 (Observe props2 5000) (run opts1 ?evs (step opts1 (Frame 1016) ?s)))
          = [emission_of emitter props6 glow, emission_of endEmitter props2 glow]"
    using p stopped_loop_keeps_active [OF h1 h2 h3] q
    by (simp add: Let_def del: step.simps run.simps set_simps)
  show ?thesis
    unfolding r r2 using h1 h2 h3' c by blast
qed

section \<open>The scenario of batch \<open>b1\<close>\<close>

lemma b1_at_500:
  "run opts1 [Observe props1 0, Frame 0, Frame 500] (mount props0) =
     \<lparr>state = \<lparr>prevId = Some ''b1'', startT = 0, bgioProps = props1\<rparr>,
      qState = \<lparr>queue = [], activeQueue = [dmg1, dmg2]\<rparr>,
      boardProps = props1, rafActive = True,
      emitted = [emission_of emitter props1 dmg1, emission_of emitter props1 dmg2],
      qStateUpdates = 3\<rparr>"
  by (simp add: eval_simps b1_simps)

lemma b1_at_1000:
  "run opts1 [Observe props1 0, Frame 0, Frame 500, Frame 1000] (mount props0) =
     \<lparr>state = \<lparr>prevId = Some ''b1'', startT = 0, bgioProps = props1\<rparr>,
      qState = \<lparr>queue = [], activeQueue = [dmg2]\<rparr>,
      boardProps = props1, rafActive = True,
      emitted = [emission_of emitter props1 dmg1, emission_of emitter props1 dmg2,
                 emission_of endEmitter props1 dmg1],
      qStateUpdates = 4\<rparr>"
  by (simp add: eval_simps b1_simps)

lemma b1_at_1500:
  "run opts1 [Observe props1 0, Frame 0, Frame 500, Frame 1000, Frame 1500] (mount props0) =
     \<lparr>state = \<lparr>prevId = Some ''b1'', startT = 0, bgioProps = props1\<rparr>,
      qState = \<lparr>queue = [], activeQueue = []\<rparr>,
      boardProps = props1, rafActive = True,
      emitted = [emission_of emitter props1 dmg1, emission_of emitter props1 dmg2,
                 emission_of endEmitter props1 dmg1, emission_of endEmitter props1 dmg2],
      qStateUpdates = 5\<rparr>"
  by (simp add: eval_simps b1_simps)

lemma run_snoc: "run opts (evs @ [ev]) s = step opts ev (run opts evs s)"
  by (induction evs arbitrary: s) simp_all

text \<open>
  C6, as the code has it. For batch \<open>b1\<close> at speed 1 the frame at elapsed time 0 starts
  only the first effect, the frame at 0.5 starts the second, the frame at 1.0 ends the
  first and the frame at 1.5 ends the second; the loop is still running after that
  frame, since the test is \<open>elapsedT > duration\<close>. Any later frame stops the loop,
  emits nothing and leaves the two (by then empty) queues as they are.
\<close>

theorem scenario_b1:
  "qState (run opts1 [Observe props1 0] (mount props0)) = \<lparr>queue = [dmg1, dmg2], activeQueue = []\<rparr>
   \<and> emitted (run opts1 [Observe props1 0] (mount props0)) = []
   \<and> qState (run opts1 [Observe props1 0, Frame 0] (mount props0))
       = \<lparr>queue = [dmg2], activeQueue = [dmg1]\<rparr>
   \<and> emitted (run opts1 [Observe props1 0, Frame 0] (mount props0))
       = [emission_of emitter props1 dmg1]
   \<and> qState (run opts1 [Observe props1 0, Frame 0, Frame 500] (mount props0))
       = \<lparr>queue = [], activeQueue = [dmg1, dmg2]\<rparr>
   \<and> emitted (run opts1 [Observe props1 0, Frame 0, Frame 500] (mount props0))
       = [emission_of emitter props1 dmg1, emission_of emitter props1 dmg2]
   \<and> qState (run opts1 [Observe props1 0, Frame 0, Frame 500, Frame 1000] (mount props0))
       = \<lparr>queue = [], activeQueue = [dmg2]\<rparr>
   \<and> emitted (run opts1 [Observe props1 0, Frame 0, Frame 500, Frame 1000] (mount props0))
       = [emission_of emitter props1 dmg1, emission_of emitter props1 dmg2,
          emission_of endEmitter props1 dmg1]
   \<and> qState (run opts1 [Observe props1 0, Frame 0, Frame 500, Frame 1000, Frame 1500] (mount props0))
       = \<lparr>queue = [], activeQueue = []\<rparr>
   \<and> emitted (run opts1 [Observe props1 0, Frame 0, Frame 500, Frame 1000, Frame 1500] (mount props0))
       = [emission_of emitter props1 dmg1, emission_of emitter props1 dmg2,
          emission_of endEmitter props1 dmg1, emission_of endEmitter props1 dmg2]
   \<and> rafActive (run opts1 [Observe props1 0, Frame 0, Frame 500, Frame 1000, Frame 1500] (mount props0))
   \<and> (now > 1500 \<longrightarrow>
        \<not> rafActive (run opts1 ([Observe props1 0, Frame 0, Frame 500, Frame 1000, Frame 1500] @ [Frame now]) (mount props0))
      \<and> qState (run opts1 ([Observe props1 0, Frame 0, Frame 500, Frame 1000, Frame 1500] @ [Frame now]) (mount props0))
          = \<lparr>queue = [], activeQueue = []\<rparr>
      \<and> emitted (run opts1 ([Observe props1 0, Frame 0, Frame 500, Frame 1000, Frame 1500] @ [Frame now]) (mount props0))
          = emitted (run opts1 [Observe props1 0, Frame 0, Frame 500, Frame 1000, Frame 1500] (mount props0)))"
proof -
  have last: "now > 1500 \<longrightarrow>
        \<not> rafActive (run opts1 ([Observe props1 0, Frame 0, Frame 500, Frame 1000, Frame 1500] @ [Frame now]) (mount props0))
      \<and> qState (run opts1 ([Observe props1 0, Frame 0, Frame 500, Frame 1000, Frame 1500] @ [Frame now]) (mount props0))
          = \<lparr>queue = [], activeQueue = []\<rparr>
      \<and> emitted (run opts1 ([Observe props1 0, Frame 0, Frame 500, Frame 1000, Frame 1500] @ [Frame now]) (mount props0))
          = emitted (run opts1 [Observe props1 0, Frame 0, Frame 500, Frame 1000, Frame 1500] (mount props0))"
    unfolding run_snoc b1_at_1500
    by (simp add: rafCallback_rafActive rafCallback_qState rafCallback_emitted elapsedT_def
        duration_of_def justStarted_def justEnded_def stillActive_def b1_simps)
  show ?thesis
    using last unfolding b1_installed b1_at_0 b1_at_500 b1_at_1000 b1_at_1500 by simp
qed

theorem scenario_b1_witness:
  "(1516::real) > 1500
   \<and> \<not> rafActive (run opts1 [Observe props1 0, Frame 0, Frame 500, Frame 1000, Frame 1500, Frame 1516] (mount props0))
   \<and> qState (run opts1 [Observe props1 0, Frame 0, Frame 500, Frame 1000, Frame 1500, Frame 1516] (mount props0))
       = \<lparr>queue = [], activeQueue = []\<rparr>"
proof -
  have r: "run opts1 [Observe props1 0, Frame 0, Frame 500, Frame 1000, Frame 1500, Frame 1516] (mount props0)
      = run opts1 ([Observe props1 0, Frame 0, Frame 500, Frame 1000, Frame 1500] @ [Frame 1516]) (mount props0)"
    by simp
  have a: "(1516::real) > 1500" by simp
  show ?thesis
    unfolding r using a scenario_b1 [of 1516] by blast
qed

text \<open>
  C6, as the spec has it, fails at the last step: the frame at elapsed time 1.5 does not
  stop the loop.
\<close>

theorem scenario_b1_counterexample:
  "elapsedT opts1 1500 (run opts1 [Observe props1 0, Frame 0, Frame 500, Frame 1000] (mount props0)) = 1.5
   \<and> duration_of (boardProps (run opts1 [Observe props1 0, Frame 0, Frame 500, Frame 1000] (mount props0))) = 1.5
   \<and> rafActive (run opts1 [Observe props1 0, Frame 0, Frame 500, Frame 1000, Frame 1500] (mount props0))"
  unfolding b1_at_1000 b1_at_1500
  by (simp add: elapsedT_def duration_of_def b1_simps)

section \<open>No effect fires twice\<close>

lemma fired_append: "fired em (xs @ ys) = fired em xs @ fired em ys"
  by (simp add: fired_def)

lemma fired_same: "fired em (map (emission_of em bp) xs) = map sig xs"
  by (induction xs) (simp_all add: fired_def emission_of_def sig_def)

lemma fired_other: "em \<noteq> em' \<Longrightarrow> fired em (map (emission_of em' bp) xs) = []"
  by (induction xs) (simp_all add: fired_def emission_of_def)

lemma batchInv_swap:
  assumes "effects bp = Some d" and "prevId (state s) \<noteq> Some (id' d)"
  shows "batchInv d (length (emitted (step opts (Observe bp now) s))) (step opts (Observe bp now) s)"
  by (simp add: observe_swap [OF assms] batchInv_def fired_def del: step.simps)

lemma batchInv_step:
  assumes "batchInv d L s" and "keepsBatch (Some (id' d)) ev"
  shows "batchInv d L (step opts ev s)"
proof (cases ev)
  case (Frame now)
  show ?thesis
  proof (cases "rafActive s")
    case False
    with Frame assms(1) show ?thesis by simp
  next
    case True
    let ?e = "elapsedT opts now s"
    let ?s' = "rafCallback opts now s"
    let ?old = "drop L (emitted s)"
    have L: "L \<le> length (emitted s)" using assms(1) by (simp add: batchInv_def)
    have dr: "drop L (emitted ?s') =
        ?old @ map (emission_of endEmitter (boardProps s)) (justEnded ?e s)
             @ map (emission_of emitter (boardProps s)) (justStarted ?e s)"
      using L by (simp add: rafCallback_emitted)
    have starts: "fired emitter (drop L (emitted ?s')) = fired emitter ?old @ map sig (justStarted ?e s)"
      unfolding dr by (simp add: fired_append fired_same fired_other)
    have ends: "fired endEmitter (drop L (emitted ?s')) = fired endEmitter ?old @ map sig (justEnded ?e s)"
      unfolding dr by (simp add: fired_append fired_same fired_other)
    have q: "justStarted ?e s @ queue (qState ?s') = queue (qState s)"
      by (simp add: rafCallback_qState justStarted_def)
    have a: "activeQueue (qState ?s') = stillActive ?e s @ justStarted ?e s"
      by (simp add: rafCallback_qState)
    have part: "mset (justEnded ?e s) + mset (stillActive ?e s) = mset (activeQueue (qState s))"
      by (simp add: justEnded_def stillActive_def not_le [symmetric])
    have i1: "fired emitter (drop L (emitted ?s')) @ map sig (queue (qState ?s')) = map sig (Data.queue d)"
    proof -
      have "map sig (justStarted ?e s @ queue (qState ?s')) = map sig (queue (qState s))"
        by (simp only: q)
      then have "map sig (justStarted ?e s) @ map sig (queue (qState ?s')) = map sig (queue (qState s))"
        by (simp only: map_append)
      moreover have "fired emitter ?old @ map sig (queue (qState s)) = map sig (Data.queue d)"
        using assms(1) by (simp add: batchInv_def)
      ultimately show ?thesis
        unfolding starts by (simp only: append_assoc)
    qed
    have i2: "mset (fired endEmitter (drop L (emitted ?s'))) + mset (map sig (activeQueue (qState ?s')))
        = mset (fired emitter (drop L (emitted ?s')))"
    proof -
      have p: "mset (map sig (justEnded ?e s)) + mset (map sig (stillActive ?e s))
          = mset (map sig (activeQueue (qState s)))"
      proof -
        have "mset (map sig (justEnded ?e s @ stillActive ?e s)) = mset (map sig (activeQueue (qState s)))"
          by (simp only: mset_map mset_append part)
        then show ?thesis by simp
      qed
      have o: "mset (fired endEmitter ?old) + mset (map sig (activeQueue (qState s)))
          = mset (fired emitter ?old)"
        using assms(1) by (simp only: batchInv_def)
      have "mset (fired endEmitter ?old @ map sig (justEnded ?e s))
              + mset (map sig (stillActive ?e s @ justStarted ?e s))
          = (mset (fired endEmitter ?old)
               + (mset (map sig (justEnded ?e s)) + mset (map sig (stillActive ?e s))))
              + mset (map sig (justStarted ?e s))"
        by simp
      also have "\<dots> = mset (fired emitter ?old) + mset (map sig (justStarted ?e s))"
        unfolding p o ..
      also have "\<dots> = mset (fired emitter ?old @ map sig (justStarted ?e s))"
        by simp
      finally show ?thesis
        unfolding starts ends a .
    qed
    have i3: "prevId (state ?s') = Some (id' d)"
      using assms(1) by (simp add: rafCallback_state batchInv_def)
    have i4: "L \<le> length (emitted ?s')"
      using L by (simp add: rafCallback_emitted)
    show ?thesis
      using Frame True i1 i2 i3 i4 by (simp add: batchInv_def)
  qed
next
  case (Observe bp now)
  have "effects bp = None \<or> id_of bp = prevId (state s)"
    using assms Observe by (simp add: batchInv_def)
  then show ?thesis
    using assms(1) Observe by (simp add: observe_same batchInv_def del: step.simps)
qed

lemma batchInv_run:
  assumes "batchInv d L s" and "\<forall>ev \<in> set evs. keepsBatch (Some (id' d)) ev"
  shows "batchInv d L (run opts evs s)"
  using assms
proof (induction evs arbitrary: s)
  case Nil
  then show ?case by simp
next
  case (Cons ev evs)
  have "batchInv d L (step opts ev s)"
    using batchInv_step [of d L s ev opts] Cons.prems by simp
  with Cons.IH [of "step opts ev s"] Cons.prems(2) show ?case by simp
qed

lemma distinct_mset_mono: "mset xs \<subseteq># mset ys \<Longrightarrow> distinct ys \<Longrightarrow> distinct xs"
proof -
  assume sub: "mset xs \<subseteq># mset ys" and d: "distinct ys"
  have le: "\<And>a. count (mset xs) a \<le> 1"
  proof -
    fix a
    have "count (mset xs) a \<le> count (mset ys) a"
      using sub by (rule mset_subset_eq_count)
    also have "\<dots> \<le> 1"
      using d by (simp add: distinct_count_atmost_1)
    finally show "count (mset xs) a \<le> 1" .
  qed
  have "\<And>a. count (mset xs) a = (if a \<in> set xs then 1 else 0)"
  proof -
    fix a
    show "count (mset xs) a = (if a \<in> set xs then 1 else 0)"
    proof (cases "a \<in> set xs")
      case True
      then have "count (mset xs) a > 0" by (rule count_mset_gt_0)
      with le [of a] have "count (mset xs) a = 1" by linarith
      with True show ?thesis by simp
    next
      case False
      then show ?thesis by (simp add: count_mset_0_iff)
    qed
  qed
  then show "distinct xs"
    by (simp only: distinct_count_atmost_1 HOL.simp_thms)
qed


lemma closing_observe:
  assumes "batchInv d L s"
  shows "fired emitter (drop L (emitted (step opts (Observe bp now) s)))
           = fired emitter (drop L (emitted s))
       \<and> mset (fired endEmitter (drop L (emitted (step opts (Observe bp now) s))))
           \<subseteq># mset (fired emitter (drop L (emitted s)))"
proof (cases "effects bp = None \<or> id_of bp = prevId (state s)")
  case True
  have "mset (fired endEmitter (drop L (emitted s))) \<subseteq># mset (fired emitter (drop L (emitted s)))"
    using assms unfolding batchInv_def by (metis mset_subset_eq_add_left)
  then show ?thesis
    using True by (simp add: observe_same del: step.simps)
next
  case False
  then obtain d' where d': "effects bp = Some d'" "prevId (state s) \<noteq> Some (id' d')"
    by (auto simp add: id_of_def)
  have L: "L \<le> length (emitted s)" using assms by (simp add: batchInv_def)
  have dr: "drop L (emitted (step opts (Observe bp now) s)) =
      drop L (emitted s) @ map (emission_of endEmitter bp) (activeQueue (qState s))"
    using L by (simp add: observe_swap [OF d'] del: step.simps)
  have "mset (fired endEmitter (drop L (emitted s))) + mset (map sig (activeQueue (qState s)))
       = mset (fired emitter (drop L (emitted s)))"
    using assms by (simp only: batchInv_def)
  then show ?thesis
    unfolding dr by (simp add: fired_append fired_same fired_other)
qed

text \<open>
  C5. From the update that installs a batch \<open>d\<close>, through any frames and updates that do
  not load another batch, up to and including any closing update (which may load the
  next batch and flush): the start events since the installation are, in order, a
  prefix of the batch's queue, the rest being still pending; the end events are, as a
  multiset, among the start events. So no effect of the batch is started or ended
  more often than it occurs in the batch, and when the effects of the batch can be told
  apart, no start event and no end event occurs twice.
\<close>

theorem no_double_fire:
  assumes "effects bp = Some d" and "prevId (state s) \<noteq> Some (id' d)"
    and "\<forall>ev \<in> set evs. keepsBatch (Some (id' d)) ev"
  shows "let s0 = step opts (Observe bp now) s;
             s1 = run opts evs s0;
             s2 = step opts (Observe bp' now') s1;
             L = length (emitted s0);
             starts = fired emitter (drop L (emitted s2));
             ends = fired endEmitter (drop L (emitted s2))
         in starts @ map sig (queue (qState s1)) = map sig (Data.queue d)
          \<and> mset starts \<subseteq># mset (map sig (Data.queue d))
          \<and> mset ends \<subseteq># mset starts
          \<and> (distinct (map sig (Data.queue d)) \<longrightarrow> distinct starts \<and> distinct ends)"
proof -
  let ?s0 = "step opts (Observe bp now) s"
  let ?s1 = "run opts evs ?s0"
  let ?s2 = "step opts (Observe bp' now') ?s1"
  let ?L = "length (emitted ?s0)"
  let ?starts = "fired emitter (drop ?L (emitted ?s2))"
  let ?ends = "fired endEmitter (drop ?L (emitted ?s2))"
  have inv0: "batchInv d ?L ?s0"
    using assms(1,2) by (rule batchInv_swap)
  have inv1: "batchInv d ?L ?s1"
    using inv0 assms(3) by (rule batchInv_run)
  have cl: "?starts = fired emitter (drop ?L (emitted ?s1))"
           "mset ?ends \<subseteq># mset (fired emitter (drop ?L (emitted ?s1)))"
    using closing_observe [OF inv1, of opts bp' now'] by blast+
  have pre: "?starts @ map sig (queue (qState ?s1)) = map sig (Data.queue d)"
    unfolding cl(1) using inv1 by (simp only: batchInv_def)
  have sub1: "mset ?starts \<subseteq># mset (map sig (Data.queue d))"
    unfolding pre [symmetric] by simp
  have sub2: "mset ?ends \<subseteq># mset ?starts"
    unfolding cl(1) using cl(2) .
  have sub3: "mset ?ends \<subseteq># mset (map sig (Data.queue d))"
    using sub2 sub1 by (rule subset_mset.order_trans)
  have dist: "distinct (map sig (Data.queue d)) \<longrightarrow> distinct ?starts \<and> distinct ?ends"
    using distinct_mset_mono [OF sub1] distinct_mset_mono [OF sub3] by blast
  show ?thesis
    unfolding Let_def using pre sub1 sub2 dist by blast
qed

theorem no_double_fire_witness:
  "effects props7 = Some b5
   \<and> prevId (state (mount props0)) \<noteq> Some (id' b5)
   \<and> list_all (keepsBatch (Some (id' b5))) [Frame 0, Frame 16, Frame 500, Observe props0 600]
   \<and> distinct (map sig (Data.queue b5))
   \<and> (let s0 = step opts1 (Observe props7 0) (mount props0);
           s1 = run opts1 [Frame 0, Frame 16, Frame 500, Observe props0 600] s0;
           s2 = step opts1 (Observe props2 1000) s1;
           L = length (emitted s0)
       in fired emitter (drop L (emitted s2)) = [(''flash'', ()), (''glow'', ())]
        \<and> fired endEmitter (drop L (emitted s2)) = [(''flash'', ()), (''glow'', ())]
        \<and> queue (qState s1) = []
        \<and> distinct (fired emitter (drop L (emitted s2)))
        \<and> distinct (fired endEmitter (drop L (emitted s2))))"
proof -
  let ?evs = "[Frame 0, Frame 16, Frame 500, Observe props0 600] :: unit event list"
  let ?s0 = "step opts1 (Observe props7 0) (mount props0)"
  let ?s1 = "run opts1 ?evs ?s0"
  let ?s2 = "step opts1 (Observe props2 1000) ?s1"
  have h1: "effects props7 = Some b5" by (simp add: props7_def)
  have h2: "prevId (state (mount props0)) \<noteq> Some (id' b5)"
    by (simp add: mount_def id_of_def props0_def)
  have h3: "\<forall>ev \<in> set ?evs. keepsBatch (Some (id' b5)) ev"
    by (simp add: props0_def)
  have h4: "distinct (map sig (Data.queue b5))"
    by (simp add: b5_def sig_def flash_def glow_def)
  have s0: "?s0 = \<lparr>state = \<lparr>prevId = Some ''b5'', startT = 0, bgioProps = props0\<rparr>,
      qState = \<lparr>queue = [flash, glow], activeQueue = []\<rparr>,
      boardProps = props7, rafActive = True, emitted = [], qStateUpdates = 1\<rparr>"
    by (simp add: eval_simps props0_def props7_def b5_def)
  have s1: "?s1 = \<lparr>state = \<lparr>prevId = Some ''b5'', startT = 0, bgioProps = props0\<rparr>,
      qState = \<lparr>queue = [], activeQueue = [glow]\<rparr>,
      boardProps = props0, rafActive = True,
      emitted = [emission_of emitter props7 flash, emission_of endEmitter props7 flash,
                 emission_of emitter props7 glow],
      qStateUpdates = 4\<rparr>"
    unfolding s0 by (simp add: eval_simps props0_def props7_def b5_def flash_def glow_def opts1_def)
  have s2: "emitted ?s2 =
      [emission_of emitter props7 flash, emission_of endEmitter props7 flash,
       emission_of emitter props7 glow, emission_of endEmitter props2 glow]"
    unfolding s1 by (simp add: eval_simps props0_def props2_def b2_def)
  have f: "fired emitter (drop (length (emitted ?s0)) (emitted ?s2)) = [(''flash'', ()), (''glow'', ())]"
          "fired endEmitter (drop (length (emitted ?s0)) (emitted ?s2)) = [(''flash'', ()), (''glow'', ())]"
    unfolding s2 unfolding s0 by (simp_all add: fired_def emission_of_def flash_def glow_def)
  have q: "queue (qState ?s1) = []" unfolding s1 by simp
  have d: "distinct (fired emitter (drop (length (emitted ?s0)) (emitted ?s2)))
         \<and> distinct (fired endEmitter (drop (length (emitted ?s0)) (emitted ?s2)))"
    using no_double_fire [OF h1 h2 h3, of opts1 0 props2 1000] h4
    unfolding Let_def by blast
  have h3': "list_all (keepsBatch (Some (id' b5))) ?evs"
    using h3 by (simp only: list_all_iff)
  show ?thesis
    unfolding Let_def using h1 h2 h3' h4 f q d by blast
qed

end
